theory Spec2Isabelle
  imports Main "HOL-Library.Word"
begin

unbundle bit_operations_syntax

text \<open>
  The program \<^verbatim>\<open>t.c\<close> enumerates arithmetic expressions over the constants e and pi
  and the operators + - * / ^ up to a limit, evaluates each and prints those whose value
  has the floor 114514. This theory embeds its functions: the growable list
  (\<^verbatim>\<open>create_expr_list\<close>, \<^verbatim>\<open>append_expr_list\<close>, \<^verbatim>\<open>free_expr_list\<close>), the node
  constructors, the generator \<^verbatim>\<open>expr_iter\<close>, the evaluator \<^verbatim>\<open>expr_eval\<close>, the
  formatter \<^verbatim>\<open>expr_repr\<close> and \<^verbatim>\<open>main\<close>. Expression nodes live on an explicit heap,
  since the program copies pointers to them and frees them by hand.
\<close>

section \<open>Platform: doubles, int range, faults\<close>

text \<open>
  A C \<^verbatim>\<open>double\<close> is its IEEE-754 binary64 bit pattern. The comparison \<^verbatim>\<open>==\<close> is the
  IEEE one (a NaN equals nothing, the two zeros are equal). Arithmetic on doubles,
  \<^verbatim>\<open>pow\<close> and \<^verbatim>\<open>floor\<close> of the C library and the text \<^verbatim>\<open>printf\<close> produces for
  \<^verbatim>\<open>%f\<close> are not defined here: they are the fields of \<open>fpu\<close>, a parameter of the
  evaluator and of \<^verbatim>\<open>main\<close>.
\<close>

type_synonym double = "64 word"

definition isnan :: "double \<Rightarrow> bool" where
  "isnan d = (d AND 0x7FF0000000000000 = 0x7FF0000000000000 \<and> d AND 0x000FFFFFFFFFFFFF \<noteq> 0)"

definition iszero :: "double \<Rightarrow> bool" where
  "iszero d = (d AND 0x7FFFFFFFFFFFFFFF = 0)"

definition double_eq :: "double \<Rightarrow> double \<Rightarrow> bool" where
  "double_eq a b = (\<not> isnan a \<and> \<not> isnan b \<and> (a = b \<or> (iszero a \<and> iszero b)))"

text \<open>
  \<^verbatim>\<open>M_E\<close> and \<^verbatim>\<open>M_PI\<close> of \<^verbatim>\<open>math.h\<close> (a system header, not among the sources):
  the doubles nearest to e and pi. \<open>target\<close> is the double 114514.0 of \<^verbatim>\<open>main\<close>.
\<close>

definition M_E :: double where
  "M_E = 0x4005BF0A8B145769"

definition M_PI :: double where
  "M_PI = 0x400921FB54442D18"

definition target :: double where
  "target = 0x40FBF52000000000"

record fpu =
  fadd :: "double \<Rightarrow> double \<Rightarrow> double"
  fsub :: "double \<Rightarrow> double \<Rightarrow> double"
  fmul :: "double \<Rightarrow> double \<Rightarrow> double"
  fdiv :: "double \<Rightarrow> double \<Rightarrow> double"
  fpow :: "double \<Rightarrow> double \<Rightarrow> double"
  ffloor :: "double \<Rightarrow> double"
  fprint :: "double \<Rightarrow> string"

text \<open>The largest \<^verbatim>\<open>int\<close> (32 bits). Signed overflow is undefined in C: a fault here.\<close>

definition INT_MAX :: int where
  "INT_MAX = 2147483647"

definition LIMIT :: int where
  "LIMIT = 7"

definition NUMS_SIZE :: nat where
  "NUMS_SIZE = 2"

definition OPS_SIZE :: nat where
  "OPS_SIZE = 5"

text \<open>
  What C leaves undefined is a value of the model: a run that frees a block twice, reads
  a freed or never written location, writes past the end of a buffer or overflows an
  \<^verbatim>\<open>int\<close> ends in \<open>Inl\<close> of the fault.
\<close>

datatype fault =
    Double_free
  | Invalid_free
  | Bad_pointer
  | Uninitialised_read
  | Out_of_bounds
  | Int_overflow

section \<open>The five operators\<close>

definition add :: "fpu \<Rightarrow> double \<Rightarrow> double \<Rightarrow> double" where
  "add fp a b = fadd fp a b"

definition sub :: "fpu \<Rightarrow> double \<Rightarrow> double \<Rightarrow> double" where
  "sub fp a b = fsub fp a b"

definition mul :: "fpu \<Rightarrow> double \<Rightarrow> double \<Rightarrow> double" where
  "mul fp a b = fmul fp a b"

definition truediv :: "fpu \<Rightarrow> double \<Rightarrow> double \<Rightarrow> double" where
  "truediv fp a b = fdiv fp a b"

definition power' :: "fpu \<Rightarrow> double \<Rightarrow> double \<Rightarrow> double" where
  "power' fp a b = fpow fp a b"

text \<open>
  An \<^verbatim>\<open>op_func\<close> is a pointer to one of the five functions of that type in the program
  (\<open>add_ptr\<close> is \<^verbatim>\<open>add\<close> used as a value, and so on); \<open>call\<close> is the call through
  the pointer. The function \<^verbatim>\<open>power\<close> is \<open>power'\<close> here.
\<close>

datatype op_func = add_ptr | sub_ptr | mul_ptr | truediv_ptr | power_ptr

fun call :: "fpu \<Rightarrow> op_func \<Rightarrow> double \<Rightarrow> double \<Rightarrow> double" where
  "call fp add_ptr a b = add fp a b"
| "call fp sub_ptr a b = sub fp a b"
| "call fp mul_ptr a b = mul fp a b"
| "call fp truediv_ptr a b = truediv fp a b"
| "call fp power_ptr a b = power' fp a b"

section \<open>Expression nodes on the heap\<close>

text \<open>
  An \<^verbatim>\<open>Expr\<close> is passed by value: a pointer and a tag (0: double, 1: tuple). What the
  pointer points to lives on the heap: a block holding a double, or a block holding a
  \<^verbatim>\<open>Tuple\<close>, whose two \<^verbatim>\<open>Expr\<close> fields are again pointer and tag. Copying an
  \<^verbatim>\<open>Expr\<close> copies the pointer, not the block.
\<close>

type_synonym addr = nat

record Expr =
  expr :: addr
  type :: int

record Tuple =
  op :: op_func
  left :: Expr
  right :: Expr

datatype block = Double_block double | Tuple_block Tuple

text \<open>
  The heap of node blocks. \<^verbatim>\<open>malloc\<close> always succeeds, hands out the next unused
  address and never reuses one, so an address below \<open>brk\<close> that holds no block has
  been freed. A block is allocated together with its first content.
\<close>

record heap =
  blocks :: "addr \<rightharpoonup> block"
  brk :: addr

definition malloc :: "block \<Rightarrow> heap \<Rightarrow> addr \<times> heap" where
  "malloc b h = (brk h, h\<lparr>blocks := (blocks h)(brk h \<mapsto> b), brk := brk h + 1\<rparr>)"

definition free :: "addr \<Rightarrow> heap \<Rightarrow> fault + heap" where
  "free p h =
     (case blocks h p of
        Some b \<Rightarrow> Inr (h\<lparr>blocks := (blocks h)(p := None)\<rparr>)
      | None \<Rightarrow> Inl (if p < brk h then Double_free else Invalid_free))"

definition read_double :: "heap \<Rightarrow> addr \<Rightarrow> fault + double" where
  "read_double h p =
     (case blocks h p of Some (Double_block v) \<Rightarrow> Inr v | _ \<Rightarrow> Inl Bad_pointer)"

definition read_tuple :: "heap \<Rightarrow> addr \<Rightarrow> fault + Tuple" where
  "read_tuple h p =
     (case blocks h p of Some (Tuple_block t) \<Rightarrow> Inr t | _ \<Rightarrow> Inl Bad_pointer)"

definition create_double_expr :: "double \<Rightarrow> heap \<Rightarrow> Expr \<times> heap" where
  "create_double_expr v h =
     (let (p, h') = malloc (Double_block v) h in (\<lparr>expr = p, type = 0\<rparr>, h'))"

definition create_tuple_expr :: "op_func \<Rightarrow> Expr \<Rightarrow> Expr \<Rightarrow> heap \<Rightarrow> Expr \<times> heap" where
  "create_tuple_expr f l r h =
     (let (p, h') = malloc (Tuple_block \<lparr>op = f, left = l, right = r\<rparr>) h
      in (\<lparr>expr = p, type = 1\<rparr>, h'))"

section \<open>The growable list\<close>

text \<open>
  An \<^verbatim>\<open>ExprList\<close> is passed along by value: its buffer \<open>list_expr\<close> has one slot per
  allocated element, \<open>None\<close> while the slot has not been written, and the fields
  \<open>list_size\<close> and \<open>list_capacity\<close> are the C fields \<^verbatim>\<open>size\<close> and \<^verbatim>\<open>capacity\<close>.
  A negative capacity gives no slot at all.
\<close>

record ExprList =
  list_expr :: "Expr option list"
  list_size :: int
  list_capacity :: int

definition create_expr_list :: "int \<Rightarrow> ExprList" where
  "create_expr_list capacity =
     \<lparr>list_expr = replicate (nat capacity) None, list_size = 0, list_capacity = capacity\<rparr>"

text \<open>\<^verbatim>\<open>realloc\<close> keeps the slots that fit and adds unwritten ones.\<close>

definition realloc :: "Expr option list \<Rightarrow> int \<Rightarrow> Expr option list" where
  "realloc buf n = take (nat n) buf @ replicate (nat n - length buf) None"

definition append_expr_list :: "ExprList \<Rightarrow> Expr \<Rightarrow> fault + ExprList" where
  "append_expr_list list e =
     (if list_size list = list_capacity list \<and> INT_MAX < list_capacity list * 2
      then Inl Int_overflow
      else
        let list1 =
              (if list_size list = list_capacity list
               then list\<lparr>list_capacity := list_capacity list * 2,
                         list_expr := realloc (list_expr list) (list_capacity list * 2)\<rparr>
               else list)
        in if 0 \<le> list_size list1 \<and> nat (list_size list1) < length (list_expr list1)
           then Inr (list1\<lparr>list_expr := (list_expr list1)[nat (list_size list1) := Some e],
                            list_size := list_size list1 + 1\<rparr>)
           else Inl Out_of_bounds)"

text \<open>Reading \<^verbatim>\<open>list->expr[i]\<close>.\<close>

definition list_get :: "ExprList \<Rightarrow> nat \<Rightarrow> fault + Expr" where
  "list_get list i =
     (if i < length (list_expr list)
      then (case list_expr list ! i of Some e \<Rightarrow> Inr e | None \<Rightarrow> Inl Uninitialised_read)
      else Inl Out_of_bounds)"

text \<open>Reading \<^verbatim>\<open>a[i]\<close> of an array passed as a pointer.\<close>

definition array_get :: "'a list \<Rightarrow> nat \<Rightarrow> fault + 'a" where
  "array_get a i = (if i < length a then Inr (a ! i) else Inl Out_of_bounds)"

text \<open>A sequence of appends, stopping at the first fault.\<close>

fun appends :: "ExprList \<Rightarrow> Expr list \<Rightarrow> fault + ExprList" where
  "appends list [] = Inr list"
| "appends list (e # es) =
     (case append_expr_list list e of Inl f \<Rightarrow> Inl f | Inr list' \<Rightarrow> appends list' es)"

text \<open>The elements a list holds: its first \<open>list_size\<close> slots.\<close>

definition contents :: "ExprList \<Rightarrow> Expr option list" where
  "contents list = take (nat (list_size list)) (list_expr list)"

section \<open>Sequencing\<close>

text \<open>
  \<open>bindE\<close> sequences two steps that may fault. A step that may also never return has
  the type \<open>(fault + 'a) option\<close>, with \<open>None\<close> for a call that does not return;
  \<open>bindC\<close> sequences two of those. \<open>for_each\<close> and \<open>for_loop\<close> are the two
  \<^verbatim>\<open>for\<close> loops over a range of indices, threading the variables the body updates.
\<close>

definition bindE :: "fault + 'a \<Rightarrow> ('a \<Rightarrow> fault + 'b) \<Rightarrow> fault + 'b" where
  "bindE m f = (case m of Inl e \<Rightarrow> Inl e | Inr a \<Rightarrow> f a)"

primrec for_each :: "nat list \<Rightarrow> (nat \<Rightarrow> 's \<Rightarrow> fault + 's) \<Rightarrow> 's \<Rightarrow> fault + 's" where
  "for_each [] body s = Inr s"
| "for_each (i # is) body s = bindE (body i s) (for_each is body)"

definition bindC ::
  "(fault + 'a) option \<Rightarrow> ('a \<Rightarrow> (fault + 'b) option) \<Rightarrow> (fault + 'b) option" where
  "bindC m f = Option.bind m (\<lambda>r. case r of Inl e \<Rightarrow> Some (Inl e) | Inr a \<Rightarrow> f a)"

primrec for_loop ::
  "nat list \<Rightarrow> (nat \<Rightarrow> 's \<Rightarrow> (fault + 's) option) \<Rightarrow> 's \<Rightarrow> (fault + 's) option" where
  "for_loop [] body s = Some (Inr s)"
| "for_loop (i # is) body s = bindC (body i s) (for_loop is body)"

lemma bindE_simps [simp]:
  "bindE (Inl e) g = Inl e"
  "bindE (Inr a) g = g a"
  by (simp_all add: bindE_def)

lemma bindC_simps [simp]:
  "bindC None f = None"
  "bindC (Some (Inl e)) f = Some (Inl e)"
  "bindC (Some (Inr a)) f = f a"
  by (simp_all add: bindC_def)

lemma bindC_mono [partial_function_mono]:
  assumes mf: "mono_option B" and mg: "\<And>y. mono_option (\<lambda>f. C y f)"
  shows "mono_option (\<lambda>f. bindC (B f) (\<lambda>y. C y f))"
  unfolding bindC_def
proof (rule bind_mono [OF mf])
  fix r
  show "mono_option (\<lambda>f. case r of Inl e \<Rightarrow> Some (Inl e) | Inr a \<Rightarrow> C a f)"
    by (cases r) (simp_all add: option.const_mono mg)
qed

lemma for_loop_mono [partial_function_mono]:
  assumes "\<And>i s. mono_option (\<lambda>f. body f i s)"
  shows "mono_option (\<lambda>f. for_loop is (body f) s)"
proof (induction "is" arbitrary: s)
  case Nil
  show ?case by (simp add: option.const_mono)
next
  case (Cons i "is")
  show ?case
    unfolding for_loop.simps
    by (rule bindC_mono) (rule assms, rule Cons.IH)
qed

section \<open>Freeing a list\<close>

text \<open>
  \<^verbatim>\<open>free_expr_list\<close> looks at each element once: for a tuple it frees the block of the
  left child, the block of the right child and the tuple's own block, reading the tuple
  again before each of the first two; for a double it frees nothing. The list's own
  storage is the value \<open>list\<close>, which is not used afterwards.
\<close>

definition free_expr_list :: "ExprList \<Rightarrow> heap \<Rightarrow> fault + heap" where
  "free_expr_list list h =
     for_each [0..<nat (list_size list)]
       (\<lambda>i h.
          bindE (list_get list i) (\<lambda>e.
          if type e = 1 then
            bindE (read_tuple h (expr e)) (\<lambda>t1.
            bindE (free (expr (left t1)) h) (\<lambda>h1.
            bindE (read_tuple h1 (expr e)) (\<lambda>t2.
            bindE (free (expr (right t2)) h1) (\<lambda>h2.
            free (expr e) h2))))
          else Inr h))
       h"

section \<open>The generator\<close>

text \<open>
  The first loop of \<^verbatim>\<open>expr_iter\<close> appends one double node per entry of \<^verbatim>\<open>nums\<close>.
\<close>

definition seed :: "double list \<Rightarrow> ExprList \<times> heap \<Rightarrow> fault + ExprList \<times> heap" where
  "seed nums =
     for_each [0..<NUMS_SIZE]
       (\<lambda>i (list, h).
          bindE (array_get nums i) (\<lambda>v.
          let (e, h') = create_double_expr v h in
          bindE (append_expr_list list e) (\<lambda>list'. Inr (list', h'))))"

text \<open>
  The innermost loop: one new tuple node per element of \<^verbatim>\<open>right_list\<close>, built from
  \<^verbatim>\<open>ops[i]\<close>, the left candidate \<open>l\<close> and that element.
\<close>

definition combine ::
  "op_func list \<Rightarrow> nat \<Rightarrow> Expr \<Rightarrow> ExprList \<Rightarrow> ExprList \<times> heap \<Rightarrow> fault + ExprList \<times> heap" where
  "combine ops i l right_list =
     for_each [0..<nat (list_size right_list)]
       (\<lambda>k (list, h).
          bindE (list_get right_list k) (\<lambda>right.
          bindE (array_get ops i) (\<lambda>f.
          let (e, h') = create_tuple_expr f l right h in
          bindE (append_expr_list list e) (\<lambda>list'. Inr (list', h')))))"

text \<open>
  The body of \<^verbatim>\<open>expr_iter\<close>, with its recursive calls made through \<open>rec\<close>.
  \<open>left_step\<close> is the body of the loop over the left candidates (lines 94 to 100):
  it reads the candidate, calls for the right candidates, runs the innermost loop and
  frees the list of right candidates. \<open>op_step\<close> is the body of the loop over the
  operators (lines 92 to 102): it calls for the left candidates, runs the loop over them
  and frees their list. \<open>limit\<close> is an unbounded integer; from a limit that is not
  negative the subtractions never leave the range of \<^verbatim>\<open>int\<close>.
\<close>

type_synonym generator =
  "op_func list \<Rightarrow> double list \<Rightarrow> int \<Rightarrow> heap \<Rightarrow> (fault + ExprList \<times> heap) option"

definition left_step ::
  "generator \<Rightarrow> op_func list \<Rightarrow> double list \<Rightarrow> int \<Rightarrow> nat \<Rightarrow> ExprList \<Rightarrow> nat \<Rightarrow>
   ExprList \<times> heap \<Rightarrow> (fault + ExprList \<times> heap) option" where
  "left_step rec ops nums limit i left_list j =
     (\<lambda>(list, h).
        bindC (Some (list_get left_list j)) (\<lambda>left.
        bindC (rec ops nums (limit - (if type left = 1 then 1 else 0)) h) (\<lambda>(right_list, h).
        bindC (Some (combine ops i left right_list (list, h))) (\<lambda>(list, h).
        bindC (Some (free_expr_list right_list h)) (\<lambda>h.
        Some (Inr (list, h)))))))"

definition op_step ::
  "generator \<Rightarrow> op_func list \<Rightarrow> double list \<Rightarrow> int \<Rightarrow> nat \<Rightarrow>
   ExprList \<times> heap \<Rightarrow> (fault + ExprList \<times> heap) option" where
  "op_step rec ops nums limit i =
     (\<lambda>(list, h).
        bindC (rec ops nums (limit - 1) h) (\<lambda>(left_list, h).
        bindC (for_loop [0..<nat (list_size left_list)]
                 (left_step rec ops nums limit i left_list) (list, h)) (\<lambda>(list, h).
        bindC (Some (free_expr_list left_list h)) (\<lambda>h.
        Some (Inr (list, h))))))"

definition expr_iter_body :: "generator \<Rightarrow> generator" where
  "expr_iter_body rec ops nums limit h =
     (let list = create_expr_list 100 in
      if limit = 0 then Some (Inr (list, h))
      else
        bindC (Some (seed nums (list, h)))
          (for_loop [0..<OPS_SIZE] (op_step rec ops nums limit)))"

lemma left_step_mono [partial_function_mono]:
  assumes "\<And>ops nums limit h. mono_option (\<lambda>f. R f ops nums limit h)"
  shows "mono_option (\<lambda>f. left_step (R f) ops nums limit i left_list j s)"
  unfolding left_step_def split_def
  by (intro partial_function_mono assms)

lemma op_step_mono [partial_function_mono]:
  assumes "\<And>ops nums limit h. mono_option (\<lambda>f. R f ops nums limit h)"
  shows "mono_option (\<lambda>f. op_step (R f) ops nums limit i s)"
  unfolding op_step_def split_def
  by (intro partial_function_mono assms)

lemma expr_iter_body_mono [partial_function_mono]:
  assumes "\<And>ops nums limit h. mono_option (\<lambda>f. R f ops nums limit h)"
  shows "mono_option (\<lambda>f. expr_iter_body (R f) ops nums limit h)"
  unfolding expr_iter_body_def Let_def
  by (intro partial_function_mono assms)

text \<open>
  \<^verbatim>\<open>expr_iter\<close> calls itself inside its loops and need not return, so its result is an
  option: \<open>None\<close> when the call does not return.
\<close>

partial_function (option) expr_iter :: generator where
  "expr_iter ops nums limit h = expr_iter_body expr_iter ops nums limit h"

section \<open>The evaluator\<close>

text \<open>
  \<^verbatim>\<open>expr_eval\<close> follows the pointers of the heap, so on a heap with a cycle it need not
  return: its result is an option as well. Anything but tag 0 is read as a tuple.
\<close>

partial_function (option) expr_eval :: "fpu \<Rightarrow> heap \<Rightarrow> Expr \<Rightarrow> (fault + double) option" where
  "expr_eval fp h e =
     (if type e = 0 then Some (read_double h (expr e))
      else
        bindC (Some (read_tuple h (expr e))) (\<lambda>tuple.
        bindC (expr_eval fp h (left tuple)) (\<lambda>a.
        bindC (expr_eval fp h (right tuple)) (\<lambda>b.
        Some (Inr (call fp (op tuple) a b))))))"

section \<open>The formatter\<close>

text \<open>
  \<^verbatim>\<open>expr_repr\<close> writes into a buffer of the caller. \<open>room\<close> is the size of that buffer
  in bytes; the two local buffers have 256. The result is \<open>Some s\<close> when the text \<open>s\<close>
  (and its terminating zero) has been written, \<open>None\<close> when the buffer has been left as
  it was: the case of a double that is neither \<^verbatim>\<open>M_PI\<close> nor \<^verbatim>\<open>M_E\<close>. A text that
  does not fit, and a \<^verbatim>\<open>%s\<close> argument that has not been written, are faults.
\<close>

definition sprintf :: "nat \<Rightarrow> string \<Rightarrow> fault + string option" where
  "sprintf room s = (if length s < room then Inr (Some s) else Inl Out_of_bounds)"

definition string_arg :: "string option \<Rightarrow> fault + string" where
  "string_arg b = (case b of Some s \<Rightarrow> Inr s | None \<Rightarrow> Inl Uninitialised_read)"

fun op_char :: "op_func \<Rightarrow> char" where
  "op_char add_ptr = CHR ''+''"
| "op_char sub_ptr = CHR ''-''"
| "op_char mul_ptr = CHR ''*''"
| "op_char truediv_ptr = CHR ''/''"
| "op_char power_ptr = CHR ''^''"

partial_function (option) expr_repr ::
  "heap \<Rightarrow> Expr \<Rightarrow> nat \<Rightarrow> (fault + string option) option"
where
  "expr_repr h e room =
     (if type e = 0 then
        bindC (Some (read_double h (expr e))) (\<lambda>value.
        if double_eq value M_PI then Some (sprintf room ''pi'')
        else if double_eq value M_E then Some (sprintf room ''e'')
        else Some (Inr None))
      else
        bindC (Some (read_tuple h (expr e))) (\<lambda>tuple.
        bindC (expr_repr h (left tuple) 256) (\<lambda>left_buffer.
        bindC (expr_repr h (right tuple) 256) (\<lambda>right_buffer.
        bindC (Some (string_arg left_buffer)) (\<lambda>ls.
        bindC (Some (string_arg right_buffer)) (\<lambda>rs.
        Some (sprintf room
          (''('' @ ls @ '' '' @ [op_char (op tuple)] @ '' '' @ rs @ '')''))))))))"

section \<open>The main program\<close>

text \<open>
  \<^verbatim>\<open>main\<close> starts on the heap before the first allocation, with its two arrays
  \<^verbatim>\<open>ops\<close> and \<^verbatim>\<open>nums\<close>. Its result is the list of the lines it prints and the heap
  it leaves behind.
\<close>

definition empty_heap :: heap where
  "empty_heap = \<lparr>blocks = Map.empty, brk = 0\<rparr>"

definition main_ops :: "op_func list" where
  "main_ops = [add_ptr, sub_ptr, mul_ptr, truediv_ptr, power_ptr]"

definition main_nums :: "double list" where
  "main_nums = [M_E, M_PI]"

definition main :: "fpu \<Rightarrow> (fault + string list \<times> heap) option" where
  "main fp =
     bindC (expr_iter main_ops main_nums LIMIT empty_heap) (\<lambda>(list, h).
     bindC (for_loop [0..<nat (list_size list)] (\<lambda>i out.
              bindC (Some (list_get list i)) (\<lambda>e.
              bindC (expr_eval fp h e) (\<lambda>v.
              if double_eq (ffloor fp v) target then
                bindC (expr_repr h e 256) (\<lambda>buffer.
                bindC (Some (string_arg buffer)) (\<lambda>s.
                Some (Inr (out @ [s @ '' = '' @ fprint fp v]))))
              else Some (Inr out))))
            []) (\<lambda>out.
     bindC (Some (free_expr_list list h)) (\<lambda>h'.
     Some (Inr (out, h')))))"

section \<open>The expression trees of the specification\<close>

text \<open>
  The specification speaks of trees: a Leaf with a value, a Binary node with one of five
  operator kinds and two subtrees. \<open>denotes h e t\<close> says that the \<^verbatim>\<open>Expr\<close> \<open>e\<close>
  stands for the tree \<open>t\<close> in the heap \<open>h\<close>. \<open>evaluate\<close> and \<open>format\<close> are the
  evaluator and the formatter as the specification words them, on trees; \<open>format\<close> is
  \<open>None\<close> on a tree with a leaf outside the two named constants, which the
  specification leaves out of the supported domain.
\<close>

datatype OperatorKind = Add | Sub | Mul | Div | Power

datatype ExpressionNode = Leaf double | Binary OperatorKind ExpressionNode ExpressionNode

fun kind :: "op_func \<Rightarrow> OperatorKind" where
  "kind add_ptr = Add"
| "kind sub_ptr = Sub"
| "kind mul_ptr = Mul"
| "kind truediv_ptr = Div"
| "kind power_ptr = Power"

fun denotes :: "heap \<Rightarrow> Expr \<Rightarrow> ExpressionNode \<Rightarrow> bool" where
  "denotes h e (Leaf v) = (type e = 0 \<and> blocks h (expr e) = Some (Double_block v))"
| "denotes h e (Binary k l r) =
     (type e = 1 \<and>
      (case blocks h (expr e) of
         Some (Tuple_block t) \<Rightarrow>
           kind (op t) = k \<and> denotes h (left t) l \<and> denotes h (right t) r
       | _ \<Rightarrow> False))"

fun evaluate :: "fpu \<Rightarrow> ExpressionNode \<Rightarrow> double" where
  "evaluate fp (Leaf v) = v"
| "evaluate fp (Binary Add l r) = fadd fp (evaluate fp l) (evaluate fp r)"
| "evaluate fp (Binary Sub l r) = fsub fp (evaluate fp l) (evaluate fp r)"
| "evaluate fp (Binary Mul l r) = fmul fp (evaluate fp l) (evaluate fp r)"
| "evaluate fp (Binary Div l r) = fdiv fp (evaluate fp l) (evaluate fp r)"
| "evaluate fp (Binary Power l r) = fpow fp (evaluate fp l) (evaluate fp r)"

fun symbol :: "OperatorKind \<Rightarrow> char" where
  "symbol Add = CHR ''+''"
| "symbol Sub = CHR ''-''"
| "symbol Mul = CHR ''*''"
| "symbol Div = CHR ''/''"
| "symbol Power = CHR ''^''"

fun format :: "ExpressionNode \<Rightarrow> string option" where
  "format (Leaf v) =
     (if v = M_E then Some ''e'' else if v = M_PI then Some ''pi'' else None)"
| "format (Binary k l r) =
     (case (format l, format r) of
        (Some ls, Some rs) \<Rightarrow> Some (''('' @ ls @ '' '' @ [symbol k] @ '' '' @ rs @ '')'')
      | _ \<Rightarrow> None)"

section \<open>Concrete inputs\<close>

text \<open>
  A sum of \<open>n + 1\<close> times pi nested to the right, built with the program's own
  constructors (\<open>pi_chain\<close>) and as a tree (\<open>pi_sum\<close>).
\<close>

fun pi_chain :: "nat \<Rightarrow> heap \<Rightarrow> Expr \<times> heap" where
  "pi_chain 0 h = create_double_expr M_PI h"
| "pi_chain (Suc n) h =
     (let (l, h1) = create_double_expr M_PI h;
          (r, h2) = pi_chain n h1
      in create_tuple_expr add_ptr l r h2)"

fun pi_sum :: "nat \<Rightarrow> ExpressionNode" where
  "pi_sum 0 = Leaf M_PI"
| "pi_sum (Suc n) = Binary Add (Leaf M_PI) (pi_sum n)"

text \<open>No block lies at or above \<open>brk\<close>: true of every heap \<^verbatim>\<open>malloc\<close> has built.\<close>

definition heap_ok :: "heap \<Rightarrow> bool" where
  "heap_ok h = (\<forall>a. brk h \<le> a \<longrightarrow> blocks h a = None)"

text \<open>
  The invariant of a list: at least one slot, as many slots as \<open>list_capacity\<close> says,
  and a size between 0 and the capacity.
\<close>

definition list_inv :: "ExprList \<Rightarrow> bool" where
  "list_inv l =
     (1 \<le> list_capacity l \<and> 0 \<le> list_size l \<and> list_size l \<le> list_capacity l \<and>
      length (list_expr l) = nat (list_capacity l))"

text \<open>
  What the first loop of \<^verbatim>\<open>expr_iter\<close> leaves behind when \<^verbatim>\<open>nums\<close> has its two
  entries: a list of two double nodes, and the heap with their two blocks.
\<close>

definition seeded_list :: "heap \<Rightarrow> ExprList" where
  "seeded_list h =
     \<lparr>list_expr = (replicate 100 None)
        [0 := Some \<lparr>expr = brk h, type = 0\<rparr>, 1 := Some \<lparr>expr = brk h + 1, type = 0\<rparr>],
      list_size = 2, list_capacity = 100\<rparr>"

definition seeded_heap :: "double list \<Rightarrow> heap \<Rightarrow> heap" where
  "seeded_heap nums h =
     h\<lparr>blocks := (blocks h)(brk h \<mapsto> Double_block (nums ! 0),
                              brk h + 1 \<mapsto> Double_block (nums ! 1)),
       brk := brk h + 2\<rparr>"

text \<open>
  The calls of \<^verbatim>\<open>expr_iter\<close> that return, and what they return (for an array
  \<^verbatim>\<open>nums\<close> with its two entries).
\<close>

definition returns_spec ::
  "double list \<Rightarrow> int \<Rightarrow> heap \<Rightarrow> fault + ExprList \<times> heap \<Rightarrow> bool" where
  "returns_spec nums limit h r =
     (NUMS_SIZE \<le> length nums \<longrightarrow>
        (limit = 0 \<and> r = Inr (create_expr_list 100, h)) \<or>
        (limit = 1 \<and> r = Inr (seeded_list h, seeded_heap nums h)))"

text \<open>A fixed arithmetic for the closed instances; any other would do.\<close>

definition word_fpu :: fpu where
  "word_fpu =
     \<lparr>fadd = (+), fsub = (-), fmul = (*), fdiv = (div), fpow = (\<lambda>a b. a ^ unat b),
      ffloor = (\<lambda>a. a), fprint = (\<lambda>a. [])\<rparr>"

text \<open>The tree  e * pi  built by the constructors on the empty heap.\<close>

definition e_times_pi :: "Expr \<times> heap" where
  "e_times_pi =
     (let (l, h1) = create_double_expr M_E empty_heap;
          (r, h2) = create_double_expr M_PI h1
      in create_tuple_expr mul_ptr l r h2)"

text \<open>The double 1.0.\<close>

definition one :: double where
  "one = 0x3FF0000000000000"

text \<open>
  The operands of a node, and the length of a tree's text (0 where it has none).
\<close>

fun operands :: "ExpressionNode \<Rightarrow> ExpressionNode list" where
  "operands (Leaf v) = []"
| "operands (Binary k l r) = [l, r]"

definition text_length :: "ExpressionNode \<Rightarrow> nat" where
  "text_length t = (case format t of Some s \<Rightarrow> length s | None \<Rightarrow> 0)"





text \<open>
  A right candidate that is a tuple: the node  e + pi  at address 2, in a list of its
  own, as a call of \<^verbatim>\<open>expr_iter\<close> that returned tuples would hand it over; a leaf e at
  address 3 as the left candidate; and the node that the innermost loop builds from the
  two, at address 4.
\<close>

definition sum_node :: Expr where
  "sum_node = \<lparr>expr = 2, type = 1\<rparr>"

definition left_leaf :: Expr where
  "left_leaf = \<lparr>expr = 3, type = 0\<rparr>"

definition candidates_heap :: heap where
  "candidates_heap =
     (let (a, h1) = create_double_expr M_E empty_heap;
          (b, h2) = create_double_expr M_PI h1;
          (t, h3) = create_tuple_expr add_ptr a b h2;
          (c, h4) = create_double_expr M_E h3
      in h4)"

definition right_candidates :: ExprList where
  "right_candidates =
     (create_expr_list 100)\<lparr>list_expr := (replicate 100 None)[0 := Some sum_node], list_size := 1\<rparr>"

definition parent_node :: Expr where
  "parent_node = \<lparr>expr = 4, type = 1\<rparr>"

section \<open>The list invariant\<close>

lemma take_Suc_update: "n < length xs \<Longrightarrow> take (Suc n) (xs[n := x]) = take n xs @ [x]"
  by (simp add: take_Suc_conv_app_nth)

lemma nat_succ: "0 \<le> (n::int) \<Longrightarrow> nat (n + 1) = Suc (nat n)"
  by simp

lemma create_expr_list_inv: "1 \<le> c \<Longrightarrow> list_inv (create_expr_list c)"
  by (simp add: list_inv_def create_expr_list_def)

lemma create_expr_list_size [simp]: "list_size (create_expr_list c) = 0"
  by (simp add: create_expr_list_def)

lemma create_expr_list_contents [simp]: "contents (create_expr_list c) = []"
  by (simp add: contents_def)

lemma append_expr_list_step:
  assumes "list_inv l" and "2 * list_size l \<le> INT_MAX"
  shows "\<exists>l'. append_expr_list l e = Inr l' \<and> list_inv l'
     \<and> list_size l' = list_size l + 1
     \<and> list_capacity l' =
         (if list_size l = list_capacity l then 2 * list_capacity l else list_capacity l)
     \<and> contents l' = contents l @ [Some e]
     \<and> (\<forall>i < nat (list_size l). list_expr l' ! i = list_expr l ! i)
     \<and> list_expr l' ! nat (list_size l) = Some e"
proof (cases "list_size l = list_capacity l")
  case True
  with assms show ?thesis
    by (auto simp: append_expr_list_def list_inv_def contents_def realloc_def Let_def
        nth_append take_Suc_update nat_succ nth_list_update)
next
  case False
  with assms show ?thesis
    by (auto simp: append_expr_list_def list_inv_def contents_def Let_def
        nth_list_update take_Suc_update nat_succ)
qed

lemma appends_inv:
  "list_inv l \<Longrightarrow> 2 * (list_size l + int (length es)) \<le> INT_MAX \<Longrightarrow>
   \<exists>l'. appends l es = Inr l' \<and> list_inv l' \<and> list_size l' = list_size l + int (length es)
      \<and> contents l' = contents l @ map Some es"
proof (induction es arbitrary: l)
  case Nil
  then show ?case by simp
next
  case (Cons e es)
  from Cons.prems have "2 * list_size l \<le> INT_MAX" by simp
  from append_expr_list_step [OF Cons.prems(1) this, of e]
  obtain l1 where l1: "append_expr_list l e = Inr l1" "list_inv l1"
    "list_size l1 = list_size l + 1" "contents l1 = contents l @ [Some e]"
    by blast
  from Cons.prems l1 have "2 * (list_size l1 + int (length es)) \<le> INT_MAX" by simp
  from Cons.IH [OF l1(2) this] l1 show ?case by auto
qed

text \<open>
  C10, as amended. A list created with a capacity of at least 1 (and not above
  \<open>INT_MAX\<close>) takes any sequence of appends whose doubled length stays within
  \<open>INT_MAX\<close>: after the appends \<open>es\<close> the size is the number of appends, it lies
  between 0 and the capacity, and the list holds exactly \<open>es\<close> in this order; one more
  append of \<open>e\<close> leaves every stored element where it was, puts \<open>e\<close> at the index
  that was the size, adds one to the size, and doubles the capacity exactly when the
  size had reached it.
\<close>

theorem append_expr_list_invariant:
  assumes "1 \<le> c" and "2 * (int (length es) + 1) \<le> INT_MAX"
  shows "\<exists>l l'. appends (create_expr_list c) es = Inr l \<and> append_expr_list l e = Inr l'
     \<and> list_size l = int (length es) \<and> 0 \<le> list_size l \<and> list_size l \<le> list_capacity l
     \<and> contents l = map Some es
     \<and> list_size l' = list_size l + 1 \<and> list_size l' \<le> list_capacity l'
     \<and> contents l' = map Some (es @ [e])
     \<and> (\<forall>i < length es. list_expr l' ! i = list_expr l ! i)
     \<and> list_expr l' ! length es = Some e
     \<and> list_capacity l' =
         (if list_size l = list_capacity l then 2 * list_capacity l else list_capacity l)"
proof -
  have inv0: "list_inv (create_expr_list c)"
    by (rule create_expr_list_inv [OF assms(1)])
  from assms(2) have "2 * (list_size (create_expr_list c) + int (length es)) \<le> INT_MAX"
    by simp
  from appends_inv [OF inv0 this]
  obtain l where l: "appends (create_expr_list c) es = Inr l" "list_inv l"
    "list_size l = int (length es)" "contents l = map Some es"
    by auto
  from assms(2) l(3) have "2 * list_size l \<le> INT_MAX" by simp
  from append_expr_list_step [OF l(2) this, of e]
  obtain l' where l': "append_expr_list l e = Inr l'" "list_inv l'"
    "list_size l' = list_size l + 1"
    "list_capacity l' =
       (if list_size l = list_capacity l then 2 * list_capacity l else list_capacity l)"
    "contents l' = contents l @ [Some e]"
    "\<forall>i < nat (list_size l). list_expr l' ! i = list_expr l ! i"
    "list_expr l' ! nat (list_size l) = Some e"
    by blast
  from l l' show ?thesis
    by (auto simp: list_inv_def)
qed

theorem append_expr_list_invariant_witness:
  "\<exists>l l'. appends (create_expr_list 1) [\<lparr>expr = 0, type = 0\<rparr>] = Inr l
     \<and> append_expr_list l \<lparr>expr = 1, type = 0\<rparr> = Inr l'
     \<and> list_size l = 1 \<and> list_capacity l = 1
     \<and> list_size l' = 2 \<and> list_capacity l' = 2
     \<and> contents l' = [Some \<lparr>expr = 0, type = 0\<rparr>, Some \<lparr>expr = 1, type = 0\<rparr>]"
proof -
  have c: "(1::int) \<le> 1" by simp
  have n: "2 * (int (length [\<lparr>expr = 0::nat, type = 0::int\<rparr>]) + 1) \<le> INT_MAX"
    by (simp add: INT_MAX_def)
  from append_expr_list_invariant [OF c n, of "\<lparr>expr = 1, type = 0\<rparr>"]
  show ?thesis
    by (auto simp: append_expr_list_def create_expr_list_def realloc_def INT_MAX_def)
qed

lemma appends_append:
  "appends l (es @ fs) = bindE (appends l es) (\<lambda>l'. appends l' fs)"
  by (induction es arbitrary: l) (auto split: sum.splits)

lemma append_expr_list_room:
  assumes "list_inv l" and "list_size l < list_capacity l"
  shows "\<exists>l'. append_expr_list l e = Inr l' \<and> list_inv l'
     \<and> list_size l' = list_size l + 1 \<and> list_capacity l' = list_capacity l"
  using assms
  by (auto simp: append_expr_list_def list_inv_def Let_def)

lemma appends_room:
  "list_inv l \<Longrightarrow> list_size l + int (length es) \<le> list_capacity l \<Longrightarrow>
   \<exists>l'. appends l es = Inr l' \<and> list_inv l' \<and> list_size l' = list_size l + int (length es)
      \<and> list_capacity l' = list_capacity l"
proof (induction es arbitrary: l)
  case Nil
  then show ?case by simp
next
  case (Cons e es)
  from Cons.prems have "list_size l < list_capacity l" by simp
  from append_expr_list_room [OF Cons.prems(1) this, of e]
  obtain l1 where l1: "append_expr_list l e = Inr l1" "list_inv l1"
    "list_size l1 = list_size l + 1" "list_capacity l1 = list_capacity l"
    by blast
  from Cons.prems l1 have "list_size l1 + int (length es) \<le> list_capacity l1" by simp
  from Cons.IH [OF l1(2) this] l1 show ?case by auto
qed

text \<open>
  C10 as stated fails for a list created with capacity 0: doubling leaves the capacity at
  0, and the first append writes past the end of a buffer without a slot. It also fails
  for the append that follows 1073741824 appends to a list of that capacity: doubling
  the capacity overflows \<^verbatim>\<open>int\<close>.
\<close>

theorem append_expr_list_capacity_0:
  "append_expr_list (create_expr_list 0) \<lparr>expr = 0, type = 0\<rparr> = Inl Out_of_bounds \<and>
   appends (create_expr_list 1073741824)
     (replicate 1073741824 \<lparr>expr = 0, type = 0\<rparr> @ [\<lparr>expr = 0, type = 0\<rparr>]) =
     Inl Int_overflow"
proof -
  let ?e = "\<lparr>expr = 0, type = 0\<rparr>"
  have inv: "list_inv (create_expr_list 1073741824)"
    by (rule create_expr_list_inv) simp
  have "list_size (create_expr_list 1073741824) + int (length (replicate 1073741824 ?e))
      \<le> list_capacity (create_expr_list 1073741824)"
    by (simp add: create_expr_list_def)
  from appends_room [OF inv this]
  obtain l where l: "appends (create_expr_list 1073741824) (replicate 1073741824 ?e) = Inr l"
    "list_size l = 1073741824" "list_capacity l = 1073741824"
    by (auto simp: create_expr_list_def)
  have "append_expr_list l ?e = Inl Int_overflow"
    by (simp add: append_expr_list_def l INT_MAX_def)
  with l(1) have "appends (create_expr_list 1073741824) (replicate 1073741824 ?e @ [?e]) =
      Inl Int_overflow"
    by (simp add: appends_append)
  moreover have "append_expr_list (create_expr_list 0) ?e = Inl Out_of_bounds"
    by (simp add: append_expr_list_def create_expr_list_def realloc_def INT_MAX_def)
  ultimately show ?thesis by simp
qed

section \<open>Runs of the generator\<close>

lemma free_expr_list_empty: "list_size l = 0 \<Longrightarrow> free_expr_list l h = Inr h"
  by (simp add: free_expr_list_def)

lemma for_loop_skip:
  "(\<And>i. i \<in> set is \<Longrightarrow> body i s = Some (Inr s)) \<Longrightarrow> for_loop is body s = Some (Inr s)"
  by (induction "is") simp_all

lemma for_loop_skip_or_hang:
  "for_loop is body s = Some y \<Longrightarrow>
   (\<And>i. i \<in> set is \<Longrightarrow> body i s = None \<or> body i s = Some (Inr s)) \<Longrightarrow> y = Inr s"
proof (induction "is")
  case Nil
  then show ?case by simp
next
  case (Cons i "is")
  from Cons.prems(2) [of i] have "body i s = None \<or> body i s = Some (Inr s)" by simp
  with Cons.prems(1) have "for_loop is body s = Some y" by auto
  with Cons show ?case by simp
qed

lemma upt_ops: "[0..<OPS_SIZE] = 0 # [1..<OPS_SIZE]"
  by (simp add: OPS_SIZE_def upt_conv_Cons)

lemma expr_iter_0: "expr_iter ops nums 0 h = Some (Inr (create_expr_list 100, h))"
  by (simp add: expr_iter.simps [of _ _ 0] expr_iter_body_def)

lemma expr_iter_1: "expr_iter ops nums 1 h = Some (seed nums (create_expr_list 100, h))"
proof (cases "seed nums (create_expr_list 100, h)")
  case (Inl e)
  then show ?thesis by (simp add: expr_iter.simps [of _ _ 1] expr_iter_body_def)
next
  case (Inr s)
  show ?thesis
    apply (subst expr_iter.simps)
    apply (simp add: Inr expr_iter_body_def)
    apply (rule for_loop_skip)
    apply (simp add: op_step_def expr_iter_0 free_expr_list_empty split: prod.splits)
    done
qed

lemma seed_ok:
  assumes "NUMS_SIZE \<le> length nums"
  shows "seed nums (create_expr_list 100, h) = Inr (seeded_list h, seeded_heap nums h)"
  using assms
  by (auto simp: seed_def NUMS_SIZE_def upt_conv_Cons array_get_def create_double_expr_def
      malloc_def append_expr_list_def create_expr_list_def INT_MAX_def Let_def
      seeded_list_def seeded_heap_def)

lemma seeded_list_facts:
  "list_size (seeded_list h) = 2"
  "list_get (seeded_list h) 0 = Inr \<lparr>expr = brk h, type = 0\<rparr>"
  "contents (seeded_list h) = [Some \<lparr>expr = brk h, type = 0\<rparr>, Some \<lparr>expr = brk h + 1, type = 0\<rparr>]"
  by (simp_all add: seeded_list_def list_get_def contents_def eval_nat_numeral)

text \<open>
  Whatever a call returns satisfies \<open>returns_spec\<close>: by the induction rule of the least
  fixed point. With limit 2 the first left candidate is a leaf, the call for its right
  candidates has limit 2 again, and by the induction hypothesis it does not return.
\<close>

lemma expr_iter_returns:
  assumes "expr_iter ops nums limit h = Some r"
  shows "returns_spec nums limit h r"
proof (rule expr_iter.raw_induct [where P = "\<lambda>ops. returns_spec", OF _ assms], goal_cases)
  case (1 f ops nums limit h r)
  note IH = 1(1) [unfolded returns_spec_def] and body = 1(2) [unfolded expr_iter_body_def]
  show ?case unfolding returns_spec_def
  proof
    assume nums: "NUMS_SIZE \<le> length nums"
    note seed = seed_ok [OF nums]
    have base: "f ops nums 0 h' = None \<or> f ops nums 0 h' = Some (Inr (create_expr_list 100, h'))"
      for h'
      using IH [of ops nums 0 h'] nums by (cases "f ops nums 0 h'") auto
    have hang: "f ops nums 2 h' = None" for h'
      using IH [of ops nums 2 h'] nums by (cases "f ops nums 2 h'") auto
    consider "limit = 0" | "limit = 1" | "limit \<noteq> 0" "limit \<noteq> 1" by blast
    then show "(limit = 0 \<and> r = Inr (create_expr_list 100, h)) \<or>
       (limit = 1 \<and> r = Inr (seeded_list h, seeded_heap nums h))"
    proof cases
      case 1
      with body show ?thesis by simp
    next
      case 2
      from body 2 have "r = Inr (seeded_list h, seeded_heap nums h)"
        apply (simp add: seed)
        apply (erule for_loop_skip_or_hang)
        subgoal for i
          using base [of "seeded_heap nums h"] by (auto simp: op_step_def free_expr_list_empty)
        done
      with 2 show ?thesis by simp
    next
      case 3
      let ?h1 = "seeded_heap nums h"
      have "f ops nums (limit - 1) ?h1 = None \<or>
        (limit = 2 \<and> f ops nums 1 ?h1 = Some (Inr (seeded_list ?h1, seeded_heap nums ?h1)))"
        using IH [of ops nums "limit - 1" ?h1] nums 3
        by (cases "f ops nums (limit - 1) ?h1") auto
      then have False
      proof
        assume "f ops nums (limit - 1) ?h1 = None"
        with body 3 show False by (simp add: seed upt_ops op_step_def)
      next
        assume "limit = 2 \<and> f ops nums 1 ?h1 = Some (Inr (seeded_list ?h1, seeded_heap nums ?h1))"
        then have limit2: "limit = 2"
          and f1: "f ops nums 1 ?h1 = Some (Inr (seeded_list ?h1, seeded_heap nums ?h1))"
          by auto
        have upt2: "[0..<2] = 0 # [1..<2]" by (simp add: upt_conv_Cons)
        from body show False
          unfolding limit2
          by (simp add: seed upt_ops f1 seeded_list_facts upt2 op_step_def left_step_def hang)
      qed
      then show ?thesis ..
    qed
  qed
qed

lemma expr_iter_diverges:
  assumes "NUMS_SIZE \<le> length nums" and "limit \<noteq> 0" and "limit \<noteq> 1"
  shows "expr_iter ops nums limit h = None"
proof (cases "expr_iter ops nums limit h")
  case None
  then show ?thesis .
next
  case (Some r)
  from expr_iter_returns [OF Some] assms show ?thesis by (simp add: returns_spec_def)
qed

lemma main_nums_length: "NUMS_SIZE \<le> length main_nums"
  by (simp add: NUMS_SIZE_def main_nums_def)

text \<open>
  C1. The claim: for every budget that is not negative the generator terminates. The code:
  from a limit of 2 on, the call for the right candidates of the first left candidate,
  a leaf, gets the caller's own limit, and so on without end; \<^verbatim>\<open>expr_iter\<close> returns
  for the limits 0 and 1 only.
\<close>

theorem expr_iter_does_not_return:
  assumes "NUMS_SIZE \<le> length nums" and "2 \<le> limit"
  shows "expr_iter ops nums limit h = None"
  using assms by (intro expr_iter_diverges) simp_all

theorem expr_iter_does_not_return_LIMIT:
  "expr_iter main_ops main_nums LIMIT empty_heap = None"
proof -
  have "2 \<le> LIMIT" by (simp add: LIMIT_def)
  from expr_iter_does_not_return [OF main_nums_length this] show ?thesis .
qed

text \<open>
  C4. For the budget 0 the generator returns an empty collection, whatever the operators
  and the leaves are, and allocates nothing.
\<close>

theorem expr_iter_limit_0:
  "expr_iter ops nums 0 h = Some (Inr (create_expr_list 100, h)) \<and>
   list_size (create_expr_list 100) = 0 \<and> contents (create_expr_list 100) = []"
  by (simp add: expr_iter_0)

text \<open>
  C5. For the budget 1 the generator returns a collection that holds exactly one Leaf
  per entry of the leaf set, in the order of the leaf set, and no Binary node.
\<close>

theorem expr_iter_limit_1:
  assumes "length nums = NUMS_SIZE"
  shows "\<exists>list h' es. expr_iter ops nums 1 h = Some (Inr (list, h')) \<and>
     list_size list = int (length nums) \<and> contents list = map Some es \<and>
     list_all2 (denotes h') es (map Leaf nums)"
proof -
  from assms have n: "NUMS_SIZE \<le> length nums" by simp
  from assms obtain a b where nums: "nums = [a, b]"
    by (cases nums; cases "tl nums") (auto simp: NUMS_SIZE_def)
  let ?es = "[\<lparr>expr = brk h, type = 0\<rparr>, \<lparr>expr = brk h + 1, type = 0\<rparr>]"
  have "expr_iter ops nums 1 h = Some (Inr (seeded_list h, seeded_heap nums h))"
    by (simp add: expr_iter_1 seed_ok [OF n])
  moreover have "list_size (seeded_list h) = int (length nums)"
    by (simp add: seeded_list_facts nums)
  moreover have "contents (seeded_list h) = map Some ?es"
    by (simp add: seeded_list_facts)
  moreover have "list_all2 (denotes (seeded_heap nums h)) ?es (map Leaf nums)"
    by (simp add: nums seeded_heap_def)
  ultimately show ?thesis by blast
qed

theorem expr_iter_limit_1_witness:
  "\<exists>list h'. expr_iter main_ops main_nums 1 empty_heap = Some (Inr (list, h')) \<and>
     list_size list = 2 \<and>
     contents list = [Some \<lparr>expr = 0, type = 0\<rparr>, Some \<lparr>expr = 1, type = 0\<rparr>] \<and>
     denotes h' \<lparr>expr = 0, type = 0\<rparr> (Leaf M_E) \<and>
     denotes h' \<lparr>expr = 1, type = 0\<rparr> (Leaf M_PI)"
proof -
  have "length main_nums = NUMS_SIZE" by (simp add: main_nums_def NUMS_SIZE_def)
  from expr_iter_limit_1 [OF this, of main_ops empty_heap]
  obtain list h' es where r: "expr_iter main_ops main_nums 1 empty_heap = Some (Inr (list, h'))"
    "list_size list = int (length main_nums)" "contents list = map Some es"
    "list_all2 (denotes h') es (map Leaf main_nums)"
    by blast
  from r(1) have "list = seeded_list empty_heap" "h' = seeded_heap main_nums empty_heap"
    by (simp_all add: expr_iter_1 seed_ok [OF main_nums_length])
  with r show ?thesis
    by (simp add: seeded_list_facts seeded_heap_def empty_heap_def main_nums_def)
qed

section \<open>Heaps built by the constructors\<close>

lemma heap_ok_empty: "heap_ok empty_heap"
  by (simp add: heap_ok_def empty_heap_def)

lemma heap_ok_malloc: "heap_ok h \<Longrightarrow> heap_ok (snd (malloc b h))"
  by (simp add: heap_ok_def malloc_def)

lemma denotes_Binary_block:
  assumes "denotes h e (Binary k l r)"
  obtains t where "blocks h (expr e) = Some (Tuple_block t)" and "type e = 1"
    and "kind (op t) = k" and "denotes h (left t) l" and "denotes h (right t) r"
  using assms by (auto split: option.splits block.splits)

lemma denotes_malloc: "heap_ok h \<Longrightarrow> denotes h e t \<Longrightarrow> denotes (snd (malloc b h)) e t"
proof (induction t arbitrary: e)
  case (Leaf v)
  then show ?case by (auto simp: heap_ok_def malloc_def)
next
  case (Binary k l r)
  from Binary.prems(2) obtain t where t: "blocks h (expr e) = Some (Tuple_block t)" "type e = 1"
    "kind (op t) = k" "denotes h (left t) l" "denotes h (right t) r"
    by (rule denotes_Binary_block)
  from t(1) Binary.prems(1) have "expr e \<noteq> brk h" by (auto simp: heap_ok_def)
  with t Binary.IH(1) [OF Binary.prems(1) t(4)] Binary.IH(2) [OF Binary.prems(1) t(5)]
  show ?case by (simp add: malloc_def)
qed

lemma create_double_expr_denotes:
  assumes "heap_ok h"
  shows "heap_ok (snd (create_double_expr v h))"
    and "denotes (snd (create_double_expr v h)) (fst (create_double_expr v h)) (Leaf v)"
    and "denotes h e t \<Longrightarrow> denotes (snd (create_double_expr v h)) e t"
  using assms heap_ok_malloc [OF assms, of "Double_block v"]
    denotes_malloc [OF assms, of e t "Double_block v"]
  by (simp_all add: create_double_expr_def malloc_def)

lemma create_tuple_expr_denotes:
  assumes "heap_ok h"
  shows "heap_ok (snd (create_tuple_expr f l r h))"
    and "denotes h l t1 \<Longrightarrow> denotes h r t2 \<Longrightarrow>
      denotes (snd (create_tuple_expr f l r h)) (fst (create_tuple_expr f l r h))
        (Binary (kind f) t1 t2)"
    and "denotes h e t \<Longrightarrow> denotes (snd (create_tuple_expr f l r h)) e t"
proof -
  let ?b = "Tuple_block \<lparr>op = f, left = l, right = r\<rparr>"
  have h': "snd (create_tuple_expr f l r h) = snd (malloc ?b h)"
    by (simp add: create_tuple_expr_def malloc_def)
  show "heap_ok (snd (create_tuple_expr f l r h))"
    unfolding h' by (rule heap_ok_malloc [OF assms])
  show "denotes (snd (create_tuple_expr f l r h)) e t" if "denotes h e t"
    unfolding h' by (rule denotes_malloc [OF assms that])
  show "denotes (snd (create_tuple_expr f l r h)) (fst (create_tuple_expr f l r h))
      (Binary (kind f) t1 t2)"
    if "denotes h l t1" "denotes h r t2"
    using denotes_malloc [OF assms that(1), of ?b] denotes_malloc [OF assms that(2), of ?b]
    by (simp add: create_tuple_expr_def malloc_def)
qed

lemma pi_chain_denotes:
  "heap_ok h \<Longrightarrow> heap_ok (snd (pi_chain n h)) \<and>
     denotes (snd (pi_chain n h)) (fst (pi_chain n h)) (pi_sum n) \<and>
     (\<forall>e t. denotes h e t \<longrightarrow> denotes (snd (pi_chain n h)) e t)"
proof (induction n arbitrary: h)
  case 0
  from create_double_expr_denotes [OF 0, where v = M_PI] show ?case by simp
next
  case (Suc n)
  obtain l h1 where c1: "create_double_expr M_PI h = (l, h1)"
    by (cases "create_double_expr M_PI h")
  obtain r h2 where c2: "pi_chain n h1 = (r, h2)"
    by (cases "pi_chain n h1")
  from create_double_expr_denotes [OF Suc.prems, where v = M_PI] c1
  have ok1: "heap_ok h1" and l1: "denotes h1 l (Leaf M_PI)"
    and f1: "\<And>e t. denotes h e t \<Longrightarrow> denotes h1 e t" by simp_all
  from Suc.IH [OF ok1] c2
  have ok2: "heap_ok h2" and r2: "denotes h2 r (pi_sum n)"
    and f2: "\<And>e t. denotes h1 e t \<Longrightarrow> denotes h2 e t" by simp_all
  let ?h3 = "snd (create_tuple_expr add_ptr l r h2)"
  have ok3: "heap_ok ?h3"
    by (rule create_tuple_expr_denotes(1) [OF ok2])
  have d3: "denotes ?h3 (fst (create_tuple_expr add_ptr l r h2)) (pi_sum (Suc n))"
    using create_tuple_expr_denotes(2) [OF ok2 f2 [OF l1] r2, of add_ptr]
    by (simp del: denotes.simps)
  have f3: "denotes ?h3 e t" if "denotes h e t" for e t
    by (rule create_tuple_expr_denotes(3) [OF ok2 f2 [OF f1 [OF that]]])
  from ok3 d3 f3 c1 c2 show ?case
    by (simp del: denotes.simps pi_sum.simps)
qed

section \<open>The evaluator and the formatter on trees\<close>

lemma call_kind:
  "call fp f a b =
     (case kind f of Add \<Rightarrow> fadd fp a b | Sub \<Rightarrow> fsub fp a b | Mul \<Rightarrow> fmul fp a b
      | Div \<Rightarrow> fdiv fp a b | Power \<Rightarrow> fpow fp a b)"
  by (cases f) (simp_all add: add_def sub_def mul_def truediv_def power'_def)

lemma expr_eval_denotes: "denotes h e t \<Longrightarrow> expr_eval fp h e = Some (Inr (evaluate fp t))"
proof (induction t arbitrary: e)
  case (Leaf v)
  then show ?case by (simp add: expr_eval.simps [of fp h e] read_double_def)
next
  case (Binary k l r)
  from Binary.prems obtain t where t: "blocks h (expr e) = Some (Tuple_block t)" "type e = 1"
    "kind (op t) = k" "denotes h (left t) l" "denotes h (right t) r"
    by (rule denotes_Binary_block)
  from Binary.IH(1) [OF t(4)] Binary.IH(2) [OF t(5)] t(1,2,3) show ?case
    by (cases k) (simp_all add: expr_eval.simps [of fp h e] read_tuple_def call_kind)
qed

lemma double_eq_PI: "double_eq v M_PI = (v = M_PI)"
  by (auto simp: double_eq_def isnan_def iszero_def M_PI_def)

lemma double_eq_E: "double_eq v M_E = (v = M_E)"
  by (auto simp: double_eq_def isnan_def iszero_def M_E_def)

lemma E_neq_PI: "M_E \<noteq> M_PI"
  by (simp add: M_E_def M_PI_def)

lemma symbol_kind: "symbol (kind f) = op_char f"
  by (cases f) simp_all

lemma format_Binary:
  "format (Binary k l r) = Some s \<Longrightarrow>
   \<exists>ls rs. format l = Some ls \<and> format r = Some rs \<and>
     s = ''('' @ ls @ '' '' @ [symbol k] @ '' '' @ rs @ '')''"
  by (auto split: option.splits)

lemma expr_repr_denotes:
  "denotes h e t \<Longrightarrow> format t = Some s \<Longrightarrow> length s < 256 \<Longrightarrow> length s < room \<Longrightarrow>
   expr_repr h e room = Some (Inr (Some s))"
proof (induction t arbitrary: e s room)
  case (Leaf v)
  then show ?case
    by (auto simp: expr_repr.simps [of h e] read_double_def double_eq_PI double_eq_E
        sprintf_def E_neq_PI split: if_splits)
next
  case (Binary k l r)
  from Binary.prems(1) obtain t where t: "blocks h (expr e) = Some (Tuple_block t)"
    "type e = 1" "kind (op t) = k" "denotes h (left t) l" "denotes h (right t) r"
    by (rule denotes_Binary_block)
  from format_Binary [OF Binary.prems(2)] obtain ls rs where
    f: "format l = Some ls" "format r = Some rs"
      "s = ''('' @ ls @ '' '' @ [symbol k] @ '' '' @ rs @ '')''"
    by blast
  from f(3) Binary.prems(3) have len: "length ls < 256" "length rs < 256" by simp_all
  have l: "expr_repr h (left t) 256 = Some (Inr (Some ls))"
    by (rule Binary.IH(1) [OF t(4) f(1) len(1) len(1)])
  have r: "expr_repr h (right t) 256 = Some (Inr (Some rs))"
    by (rule Binary.IH(2) [OF t(5) f(2) len(2) len(2)])
  from t(1,2,3) l r f(3) Binary.prems(4) show ?case
    by (simp add: expr_repr.simps [of h e] read_tuple_def string_arg_def sprintf_def
        symbol_kind [symmetric])
qed

lemma expr_repr_overflow:
  assumes "denotes h e (Binary k l r)" and "format l = Some ls" and "format r = Some rs"
    and "length ls < 256" and "length rs < 256" and "room \<le> length ls + length rs + 5"
  shows "expr_repr h e room = Some (Inl Out_of_bounds)"
proof -
  from assms(1) obtain t where t: "blocks h (expr e) = Some (Tuple_block t)" "type e = 1"
    "kind (op t) = k" "denotes h (left t) l" "denotes h (right t) r"
    by (rule denotes_Binary_block)
  have l: "expr_repr h (left t) 256 = Some (Inr (Some ls))"
    by (rule expr_repr_denotes [OF t(4) assms(2) assms(4) assms(4)])
  have r: "expr_repr h (right t) 256 = Some (Inr (Some rs))"
    by (rule expr_repr_denotes [OF t(5) assms(3) assms(5) assms(5)])
  from t(1,2) l r assms(6) show ?thesis
    by (simp add: expr_repr.simps [of h e] read_tuple_def string_arg_def sprintf_def)
qed

lemma expr_repr_operand_overflow:
  assumes "denotes h e (Binary k l (Binary k' l' r'))"
    and "format l = Some ls" and "length ls < 256"
    and "format l' = Some ls'" and "format r' = Some rs'"
    and "length ls' < 256" and "length rs' < 256" and "256 \<le> length ls' + length rs' + 5"
  shows "expr_repr h e room = Some (Inl Out_of_bounds)"
proof -
  from assms(1) obtain t where t: "blocks h (expr e) = Some (Tuple_block t)" "type e = 1"
    "kind (op t) = k" "denotes h (left t) l" "denotes h (right t) (Binary k' l' r')"
    by (rule denotes_Binary_block)
  have l: "expr_repr h (left t) 256 = Some (Inr (Some ls))"
    by (rule expr_repr_denotes [OF t(4) assms(2) assms(3) assms(3)])
  have r: "expr_repr h (right t) 256 = Some (Inl Out_of_bounds)"
    by (rule expr_repr_overflow [OF t(5) assms(4,5,6,7,8)])
  from t(1,2) l r show ?thesis
    by (simp add: expr_repr.simps [of h e] read_tuple_def)
qed

lemma expr_repr_leaf_unwritten:
  assumes "denotes h e (Leaf v)" and "v \<noteq> M_PI" and "v \<noteq> M_E"
  shows "expr_repr h e room = Some (Inr None)"
  using assms
  by (simp add: expr_repr.simps [of h e] read_double_def double_eq_PI double_eq_E)

lemma one_other: "one \<noteq> M_PI" "one \<noteq> M_E"
  by (simp_all add: one_def M_PI_def M_E_def)

lemma format_pi_sum: "\<exists>s. format (pi_sum n) = Some s \<and> length s = 2 + 7 * n"
  using E_neq_PI by (induction n) auto

lemma e_times_pi_denotes:
  "denotes (snd e_times_pi) (fst e_times_pi) (Binary Mul (Leaf M_E) (Leaf M_PI))"
  by (simp add: e_times_pi_def create_double_expr_def create_tuple_expr_def malloc_def
      empty_heap_def)

text \<open>
  C7. On every expression tree the evaluator computes what the specification says:
  the value of a Leaf, and for a Binary node the operator's function applied to the values
  of the two subtrees (the sum for Add, and so on, the power for Pow).
\<close>

theorem expr_eval_refines_evaluate:
  assumes "denotes h e t"
  shows "expr_eval fp h e = Some (Inr (evaluate fp t))"
  using assms by (rule expr_eval_denotes)

theorem expr_eval_refines_evaluate_witness:
  "expr_eval word_fpu (snd e_times_pi) (fst e_times_pi) = Some (Inr (fmul word_fpu M_E M_PI))"
  using expr_eval_refines_evaluate [OF e_times_pi_denotes, of word_fpu] by simp

lemma expr_repr_operands_fit:
  assumes "denotes h e t" and "format t = Some s"
    and "\<forall>u \<in> set (operands t). text_length u < 256" and "length s < room"
  shows "expr_repr h e room = Some (Inr (Some s))"
proof (cases t)
  case (Leaf v)
  with assms(1,2,4) show ?thesis
    by (auto simp: expr_repr.simps [of h e] read_double_def double_eq_PI double_eq_E
        sprintf_def E_neq_PI split: if_splits)
next
  case (Binary k l r)
  from assms(1) obtain t' where t': "blocks h (expr e) = Some (Tuple_block t')"
    "type e = 1" "kind (op t') = k" "denotes h (left t') l" "denotes h (right t') r"
    unfolding Binary by (rule denotes_Binary_block)
  from format_Binary [OF assms(2) [unfolded Binary]] obtain ls rs where
    f: "format l = Some ls" "format r = Some rs"
      "s = ''('' @ ls @ '' '' @ [symbol k] @ '' '' @ rs @ '')''"
    by blast
  from assms(3) f(1,2) have len: "length ls < 256" "length rs < 256"
    by (simp_all add: Binary text_length_def)
  have l: "expr_repr h (left t') 256 = Some (Inr (Some ls))"
    by (rule expr_repr_denotes [OF t'(4) f(1) len(1) len(1)])
  have r: "expr_repr h (right t') 256 = Some (Inr (Some rs))"
    by (rule expr_repr_denotes [OF t'(5) f(2) len(2) len(2)])
  from t'(1,2,3) l r f(3) assms(4) show ?thesis
    by (simp add: expr_repr.simps [of h e] read_tuple_def string_arg_def sprintf_def
        symbol_kind [symmetric])
qed

text \<open>
  C8, as amended. On a tree whose leaves are all e or pi the formatter writes the text of
  the specification, "e" and "pi" for the two constants and "(left op right)" for a
  Binary node, with the operator's character among + - * / ^, provided the text of
  each operand of a Binary node is shorter than 256 characters, the size of the two local
  buffers, and the whole text is shorter than the caller's buffer.
\<close>

theorem expr_repr_refines_format:
  assumes "denotes h e t" and "format t = Some s"
    and "\<forall>u \<in> set (operands t). text_length u < 256" and "length s < room"
  shows "expr_repr h e room = Some (Inr (Some s))"
  using assms by (rule expr_repr_operands_fit)

theorem expr_repr_refines_format_witness:
  "expr_repr (snd e_times_pi) (fst e_times_pi) 256 = Some (Inr (Some ''(e * pi)'')) \<and>
   (\<exists>s. format (pi_sum 37) = Some s \<and> length s = 261 \<and>
      expr_repr (snd (pi_chain 37 empty_heap)) (fst (pi_chain 37 empty_heap)) 512 =
        Some (Inr (Some s)))"
proof -
  have f: "format (Binary Mul (Leaf M_E) (Leaf M_PI)) = Some ''(e * pi)''"
    using E_neq_PI by simp
  have o: "\<forall>u \<in> set (operands (Binary Mul (Leaf M_E) (Leaf M_PI))). text_length u < 256"
    using E_neq_PI by (simp add: text_length_def)
  have "length ''(e * pi)'' < 256" by simp
  from expr_repr_refines_format [OF e_times_pi_denotes f o this]
  have short: "expr_repr (snd e_times_pi) (fst e_times_pi) 256 = Some (Inr (Some ''(e * pi)''))" .
  have d: "denotes (snd (pi_chain 37 empty_heap)) (fst (pi_chain 37 empty_heap)) (pi_sum 37)"
    using pi_chain_denotes [OF heap_ok_empty, of 37] by simp
  obtain s where s: "format (pi_sum 37) = Some s" "length s = 2 + 7 * 37"
    using format_pi_sum [of 37] by blast
  obtain rs where rs: "format (pi_sum 36) = Some rs" "length rs = 2 + 7 * 36"
    using format_pi_sum [of 36] by blast
  have p: "pi_sum 37 = Binary Add (Leaf M_PI) (pi_sum 36)"
    by (simp add: eval_nat_numeral)
  have o37: "\<forall>u \<in> set (operands (pi_sum 37)). text_length u < 256"
    unfolding p using E_neq_PI by (simp add: text_length_def rs)
  from s(2) have "length s < 512" by simp
  from expr_repr_refines_format [OF d s(1) o37 this] s short show ?thesis
    by simp
qed

text \<open>
  C8 as stated fails on a Binary node with a long text. The sum of 38 times pi, a tree
  of leaves pi only, has a text of 261 characters, and with the buffer of 256 bytes that
  \<^verbatim>\<open>main\<close> provides the formatter writes past the end of the buffer. The sum of 39
  times pi has a right operand with that text: whatever the caller's buffer, here one of
  512 bytes, the formatter writes past the end of its local buffer for the right operand.
\<close>

theorem expr_repr_overflows_buffer:
  "denotes (snd (pi_chain 37 empty_heap)) (fst (pi_chain 37 empty_heap)) (pi_sum 37) \<and>
   expr_repr (snd (pi_chain 37 empty_heap)) (fst (pi_chain 37 empty_heap)) 256 =
     Some (Inl Out_of_bounds) \<and>
   denotes (snd (pi_chain 38 empty_heap)) (fst (pi_chain 38 empty_heap)) (pi_sum 38) \<and>
   expr_repr (snd (pi_chain 38 empty_heap)) (fst (pi_chain 38 empty_heap)) 512 =
     Some (Inl Out_of_bounds)"
proof -
  have d: "denotes (snd (pi_chain 37 empty_heap)) (fst (pi_chain 37 empty_heap)) (pi_sum 37)"
    using pi_chain_denotes [OF heap_ok_empty, of 37] by simp
  have d': "denotes (snd (pi_chain 38 empty_heap)) (fst (pi_chain 38 empty_heap)) (pi_sum 38)"
    using pi_chain_denotes [OF heap_ok_empty, of 38] by simp
  have s: "pi_sum 37 = Binary Add (Leaf M_PI) (pi_sum 36)"
    by (simp add: eval_nat_numeral)
  have s': "pi_sum 38 = Binary Add (Leaf M_PI) (Binary Add (Leaf M_PI) (pi_sum 36))"
    by (simp add: eval_nat_numeral)
  obtain rs where rs: "format (pi_sum 36) = Some rs" "length rs = 2 + 7 * 36"
    using format_pi_sum [of 36] by blast
  have pi: "format (Leaf M_PI) = Some ''pi''"
    using E_neq_PI by simp
  have "expr_repr (snd (pi_chain 37 empty_heap)) (fst (pi_chain 37 empty_heap)) 256 =
      Some (Inl Out_of_bounds)"
    by (rule expr_repr_overflow [OF d [unfolded s] pi rs(1)]) (simp_all add: rs)
  moreover have "expr_repr (snd (pi_chain 38 empty_heap)) (fst (pi_chain 38 empty_heap)) 512 =
      Some (Inl Out_of_bounds)"
    by (rule expr_repr_operand_overflow [OF d' [unfolded s'] pi _ pi rs(1)]) (simp_all add: rs)
  ultimately show ?thesis using d d' by blast
qed

section \<open>The limits of the recursive calls\<close>




section \<open>Ownership of the nodes\<close>

lemma right_candidates_appended:
  "append_expr_list (create_expr_list 100) sum_node = Inr right_candidates"
  by (simp add: append_expr_list_def create_expr_list_def right_candidates_def INT_MAX_def)

lemma candidates_denote:
  "denotes candidates_heap sum_node (Binary Add (Leaf M_E) (Leaf M_PI))"
  "denotes candidates_heap left_leaf (Leaf M_E)"
  by (simp_all add: candidates_heap_def sum_node_def left_leaf_def create_double_expr_def
      create_tuple_expr_def malloc_def empty_heap_def)

text \<open>
  Freeing the list that \<^verbatim>\<open>expr_iter\<close> returns for limit 1 frees no block: the two
  leaves stay allocated.
\<close>

lemma free_expr_list_keeps_leaves:
  "free_expr_list (seeded_list h) (seeded_heap nums h) = Inr (seeded_heap nums h)"
  by (simp add: free_expr_list_def seeded_list_def list_get_def upt_conv_Cons)

text \<open>
  Lines 96 to 100 for the left candidate \<open>left_leaf\<close> and the right candidates
  \<open>right_candidates\<close>: the innermost loop moves \<open>sum_node\<close> into the new node at
  address 4, and freeing \<open>right_candidates\<close> then frees the block of \<open>sum_node\<close> and
  the blocks of its two leaves. The new node is left with a dangling right child:
  evaluating it reads a freed block, and freeing the list that holds it frees the block
  of \<open>sum_node\<close> a second time.
\<close>

lemma free_expr_list_frees_moved_node:
  "\<exists>list h5 h6.
      combine main_ops 0 left_leaf right_candidates (create_expr_list 100, candidates_heap) =
        Inr (list, h5) \<and>
      contents list = [Some parent_node] \<and>
      denotes h5 parent_node (Binary Add (Leaf M_E) (Binary Add (Leaf M_E) (Leaf M_PI))) \<and>
      free_expr_list right_candidates h5 = Inr h6 \<and>
      blocks h6 (expr sum_node) = None \<and>
      expr_eval fp h6 parent_node = Some (Inl Bad_pointer) \<and>
      free_expr_list list h6 = Inl Double_free"
  apply (simp add: combine_def right_candidates_def list_get_def array_get_def main_ops_def
      create_tuple_expr_def malloc_def append_expr_list_def create_expr_list_def INT_MAX_def
      candidates_heap_def create_double_expr_def empty_heap_def left_leaf_def sum_node_def
      contents_def parent_node_def free_expr_list_def read_tuple_def free_def
      take_Suc_update numeral_eq_Suc)
  apply (subst expr_eval.simps, simp add: read_tuple_def read_double_def)
  apply (subst expr_eval.simps, simp add: read_tuple_def read_double_def)
  apply (subst expr_eval.simps, simp add: read_tuple_def read_double_def)
  done

text \<open>
  C3. The claim: every node is released exactly once by its owner; freeing a collection
  frees every tree it still holds, leaves included, and never a node that has been moved
  into another owner. The code: \<^verbatim>\<open>free_expr_list\<close> frees nothing for an element that
  is a leaf, so the run with limit 1 followed by the teardown of \<^verbatim>\<open>main\<close> leaves both
  leaves allocated; and it frees the blocks of a tuple element that has been moved into a
  new node, which the teardown then frees again.
\<close>

theorem free_expr_list_leaks_and_frees_twice:
  "(\<exists>list h. expr_iter main_ops main_nums 1 empty_heap = Some (Inr (list, h)) \<and>
      free_expr_list list h = Inr h \<and>
      blocks h 0 = Some (Double_block M_E) \<and> blocks h 1 = Some (Double_block M_PI)) \<and>
   (\<exists>list h5 h6.
      combine main_ops 0 left_leaf right_candidates (create_expr_list 100, candidates_heap) =
        Inr (list, h5) \<and>
      contents list = [Some parent_node] \<and>
      free_expr_list right_candidates h5 = Inr h6 \<and>
      blocks h6 (expr sum_node) = None \<and>
      free_expr_list list h6 = Inl Double_free)"
proof -
  let ?h = "seeded_heap main_nums empty_heap"
  have "expr_iter main_ops main_nums 1 empty_heap = Some (Inr (seeded_list empty_heap, ?h))"
    by (simp add: expr_iter_1 seed_ok [OF main_nums_length])
  moreover have "free_expr_list (seeded_list empty_heap) ?h = Inr ?h"
    by (rule free_expr_list_keeps_leaves)
  moreover have "blocks ?h 0 = Some (Double_block M_E)" "blocks ?h 1 = Some (Double_block M_PI)"
    by (simp_all add: seeded_heap_def empty_heap_def main_nums_def)
  ultimately have leak: "\<exists>list h. expr_iter main_ops main_nums 1 empty_heap = Some (Inr (list, h)) \<and>
      free_expr_list list h = Inr h \<and>
      blocks h 0 = Some (Double_block M_E) \<and> blocks h 1 = Some (Double_block M_PI)"
    by blast
  from free_expr_list_frees_moved_node [of word_fpu] leak show ?thesis
    by blast
qed

text \<open>
  C6. The claim: for every budget from 1 on, the returned collection holds the leaves
  first and then the Binary nodes, operator by operator. The code: for the budget 2 no
  collection is returned at all. (For the budget 1 the collection holds the leaves in
  order and nothing else, see C5.)
\<close>

theorem expr_iter_limit_2_no_collection:
  "expr_iter main_ops main_nums 2 empty_heap = None"
  by (rule expr_iter_diverges [OF main_nums_length]) simp_all

text \<open>
  C9. The claim: every tree produced at a budget is produced at every larger budget. The
  code: the budget 1 produces the two leaves, the budget 2 produces nothing, since the
  call does not return.
\<close>

theorem expr_iter_not_monotonic:
  "(\<exists>list h. expr_iter main_ops main_nums 1 empty_heap = Some (Inr (list, h)) \<and>
      contents list = [Some \<lparr>expr = 0, type = 0\<rparr>, Some \<lparr>expr = 1, type = 0\<rparr>] \<and>
      denotes h \<lparr>expr = 0, type = 0\<rparr> (Leaf M_E) \<and> denotes h \<lparr>expr = 1, type = 0\<rparr> (Leaf M_PI)) \<and>
   expr_iter main_ops main_nums 2 empty_heap = None"
proof -
  have "expr_iter main_ops main_nums 1 empty_heap =
      Some (Inr (seeded_list empty_heap, seeded_heap main_nums empty_heap))"
    by (simp add: expr_iter_1 seed_ok [OF main_nums_length])
  moreover have "expr_iter main_ops main_nums 2 empty_heap = None"
    by (rule expr_iter_diverges [OF main_nums_length]) simp_all
  ultimately show ?thesis
    by (simp add: seeded_list_facts seeded_heap_def empty_heap_def main_nums_def)
qed

section \<open>Further properties\<close>

text \<open>
  \<^verbatim>\<open>main\<close> as it stands, with \<^verbatim>\<open>LIMIT\<close> 7, does not return: the program prints no
  line.
\<close>

theorem main_does_not_return: "main fp = None"
proof -
  have "expr_iter main_ops main_nums LIMIT empty_heap = None"
    by (rule expr_iter_diverges [OF main_nums_length]) (simp_all add: LIMIT_def)
  then show ?thesis by (simp add: main_def)
qed

text \<open>
  For an array \<^verbatim>\<open>nums\<close> with its two entries, a call of \<^verbatim>\<open>expr_iter\<close> that returns
  has limit 0 and returns the empty list, or has limit 1 and returns the list of the two
  leaves.
\<close>

theorem expr_iter_returns_only_for_0_and_1:
  assumes "NUMS_SIZE \<le> length nums" and "expr_iter ops nums limit h = Some r"
  shows "(limit = 0 \<and> r = Inr (create_expr_list 100, h)) \<or>
     (limit = 1 \<and> r = Inr (seeded_list h, seeded_heap nums h))"
  using expr_iter_returns [OF assms(2)] assms(1) by (simp add: returns_spec_def)

theorem expr_iter_returns_only_for_0_and_1_witness:
  "NUMS_SIZE \<le> length main_nums \<and>
   expr_iter main_ops main_nums 1 empty_heap =
     Some (Inr (seeded_list empty_heap, seeded_heap main_nums empty_heap)) \<and>
   Inr (seeded_list empty_heap, seeded_heap main_nums empty_heap) \<noteq>
     (Inr (create_expr_list 100, empty_heap) :: fault + ExprList \<times> heap)"
proof -
  have r: "expr_iter main_ops main_nums 1 empty_heap =
      Some (Inr (seeded_list empty_heap, seeded_heap main_nums empty_heap))"
    by (simp add: expr_iter_1 seed_ok [OF main_nums_length])
  have "seeded_list empty_heap \<noteq> create_expr_list 100"
    by (simp add: seeded_list_def create_expr_list_def)
  with expr_iter_returns_only_for_0_and_1 [OF main_nums_length r] main_nums_length r
  show ?thesis by simp
qed

text \<open>
  For a leaf that is neither \<^verbatim>\<open>M_PI\<close> nor \<^verbatim>\<open>M_E\<close> the formatter returns without
  writing to its buffer.
\<close>

theorem expr_repr_other_leaf:
  assumes "denotes h e (Leaf v)" and "v \<noteq> M_PI" and "v \<noteq> M_E"
  shows "expr_repr h e room = Some (Inr None)"
  using assms by (rule expr_repr_leaf_unwritten)

theorem expr_repr_other_leaf_witness:
  "expr_repr (snd (create_double_expr one empty_heap))
     (fst (create_double_expr one empty_heap)) 256 = Some (Inr None)"
proof -
  have d: "denotes (snd (create_double_expr one empty_heap))
      (fst (create_double_expr one empty_heap)) (Leaf one)"
    by (simp add: create_double_expr_def malloc_def)
  from expr_repr_other_leaf [OF d one_other] show ?thesis .
qed

end
